theory Spec2Isabelle
  imports Main "HOL-Library.AList" "HOL-Library.Char_ord" "HOL-Library.List_Lexorder"
begin

section \<open>The Go runtime and library pieces used by logstash.go\<close>

text \<open>
  Go strings are byte sequences, modelled as \<^typ>\<open>string\<close> (a list of 8-bit characters).
  The functions of package \<open>strings\<close> that the adapter calls are modelled with the results
  their documentation gives. \<open>Split\<close> and \<open>Replace\<close> are only ever called with one-byte
  separators (\<open>","\<close>, \<open>"="\<close>, \<open>"_"\<close>), so the separator is a \<^typ>\<open>char\<close>.
\<close>

definition newline :: char where
  "newline = CHR 0x0A"

definition HasPrefix :: "string \<Rightarrow> string \<Rightarrow> bool" where
  "HasPrefix s p \<longleftrightarrow> length p \<le> length s \<and> take (length p) s = p"

definition TrimPrefix :: "string \<Rightarrow> string \<Rightarrow> string" where
  "TrimPrefix s p = (if HasPrefix s p then drop (length p) s else s)"

text \<open>
  \<open>strings.Split(s, sep)\<close>: a left-to-right scan that closes the current segment at every
  occurrence of the separator; the last segment is what remains. The result always has
  one segment more than there are separators, so it is never empty.
\<close>

fun Split_from :: "string \<Rightarrow> string \<Rightarrow> char \<Rightarrow> string list" where
  "Split_from cur [] sep = [cur]"
| "Split_from cur (c # s) sep =
     (if c = sep then cur # Split_from [] s sep else Split_from (cur @ [c]) s sep)"

definition Split :: "string \<Rightarrow> char \<Rightarrow> string list" where
  "Split s sep = Split_from [] s sep"

text \<open>
  \<open>strings.Replace(s, old, new, n)\<close> replaces the first \<open>n\<close> occurrences of \<open>old\<close>; a
  negative \<open>n\<close> puts no limit on the number of replacements.
\<close>

fun Replace :: "string \<Rightarrow> char \<Rightarrow> char \<Rightarrow> int \<Rightarrow> string" where
  "Replace [] old new n = []"
| "Replace (c # s) old new n =
     (if n \<noteq> 0 \<and> c = old then new # Replace s old new (n - 1)
      else c # Replace s old new n)"

text \<open>\<open>strings.Join\<close>, used only to state what \<open>Split\<close> returns.\<close>

fun Join :: "string list \<Rightarrow> char \<Rightarrow> string" where
  "Join [] sep = []"
| "Join [x] sep = x"
| "Join (x # y # ys) sep = x @ sep # Join (y # ys) sep"

text \<open>
  A Go slice is either \<open>nil\<close> or a (possibly empty) sequence. \<open>append\<close> keeps a non-nil
  slice non-nil, and appending no element to \<open>nil\<close> gives \<open>nil\<close>.
\<close>

datatype 'a slice = NilSlice | MkSlice "'a list"

fun elems :: "'a slice \<Rightarrow> 'a list" where
  "elems NilSlice = []"
| "elems (MkSlice xs) = xs"

fun append_slice :: "'a slice \<Rightarrow> 'a list \<Rightarrow> 'a slice" where
  "append_slice NilSlice [] = NilSlice"
| "append_slice NilSlice (x # xs) = MkSlice (x # xs)"
| "append_slice (MkSlice ys) xs = MkSlice (ys @ xs)"

text \<open>
  Run-time panics of the Go program: an index out of range (index and length), and an
  assignment to an entry of a nil map.
\<close>

datatype panic = IndexOutOfRange nat nat | NilMapAssignment

definition index :: "'a list \<Rightarrow> nat \<Rightarrow> panic + 'a" where
  "index xs i = (if i < length xs then Inr (xs ! i) else Inl (IndexOutOfRange i (length xs)))"

text \<open>
  A Go map with string keys is represented by an association list read with
  \<^const>\<open>map_of\<close> and written with \<^const>\<open>AList.update\<close>, which keeps the keys distinct.
\<close>

type_synonym 'v gomap = "(string \<times> 'v) list"

section \<open>Data model\<close>

text \<open>The fields of \<open>docker.Container\<close> and \<open>docker.Config\<close> that the adapter reads.\<close>

record Config =
  Config_Image :: string
  Config_Hostname :: string
  Config_Env :: "string list"

record Container =
  Container_ID :: string
  Container_Name :: string
  Container_Config :: Config

text \<open>
  \<open>LogstashAdapter\<close>: the connection and the tag cache (the route is never read after
  the adapter is made). The type \<open>'c\<close> is the state of the connection.
  \<open>NewLogstashAdapter\<close> is given the connection that the transport has dialled.
\<close>

record 'c LogstashAdapter =
  conn :: 'c
  containerTags :: "string \<rightharpoonup> string slice"

definition NewLogstashAdapter :: "'c \<Rightarrow> 'c LogstashAdapter" where
  "NewLogstashAdapter c = \<lparr>conn = c, containerTags = Map.empty\<rparr>"

section \<open>Metadata extraction\<close>

text \<open>The body of the loop of \<open>GetContainerTags\<close>, for one environment entry.\<close>

definition tags_step :: "string slice \<Rightarrow> string \<Rightarrow> string slice" where
  "tags_step tags e =
     (if HasPrefix e ''LOGSTASH_TAGS='' then
        append_slice tags (Split (TrimPrefix e ''LOGSTASH_TAGS='') CHR '','')
      else if HasPrefix e ''MARATHON_APP_LABEL_'' then
        append_slice tags
          [Replace (TrimPrefix e ''MARATHON_APP_LABEL_'') CHR ''='' CHR ''_'' (- 1)]
      else tags)"

definition scan_tags :: "string list \<Rightarrow> string slice" where
  "scan_tags env = foldl tags_step (MkSlice []) env"

definition GetContainerTags ::
  "Container \<Rightarrow> 'c LogstashAdapter \<Rightarrow> string slice \<times> 'c LogstashAdapter" where
  "GetContainerTags c a =
     (case containerTags a (Container_ID c) of
        Some tags \<Rightarrow> (tags, a)
      | None \<Rightarrow>
          (let tags = scan_tags (Config_Env (Container_Config c))
           in (tags, a\<lparr>containerTags := (containerTags a)(Container_ID c \<mapsto> tags)\<rparr>)))"

text \<open>
  The body of the loop of \<open>GetMarathonInfo\<close>. \<open>kv[0]\<close> and \<open>kv[1]\<close> are evaluated before
  the map is written, and each of them panics when the index is out of range.
\<close>

definition marathon_step :: "string gomap \<Rightarrow> string \<Rightarrow> panic + string gomap" where
  "marathon_step marathoninfo e =
     (if HasPrefix e ''MARATHON_APP_LABEL_'' then
        (let kv = Split (TrimPrefix e ''MARATHON_APP_LABEL_'') CHR ''=''
         in case index kv 0 of
              Inl p \<Rightarrow> Inl p
            | Inr k \<Rightarrow>
                (case index kv 1 of
                   Inl p \<Rightarrow> Inl p
                 | Inr v \<Rightarrow> Inr (AList.update k v marathoninfo)))
      else Inr marathoninfo)"

fun marathon_loop :: "string list \<Rightarrow> string gomap \<Rightarrow> panic + string gomap" where
  "marathon_loop [] marathoninfo = Inr marathoninfo"
| "marathon_loop (e # es) marathoninfo =
     (case marathon_step marathoninfo e of
        Inl p \<Rightarrow> Inl p
      | Inr marathoninfo' \<Rightarrow> marathon_loop es marathoninfo')"

definition GetMarathonInfo :: "Container \<Rightarrow> 'c LogstashAdapter \<Rightarrow> panic + string gomap" where
  "GetMarathonInfo c a = marathon_loop (Config_Env (Container_Config c)) []"

section \<open>Scheduler metadata as a structured record (second listing)\<close>

text \<open>
  The second listing of logstash.go replaces \<open>GetMarathonInfo\<close> by \<open>GetMarathonData\<close>,
  which fills a struct. Its two map fields are never made: \<open>MarathonData{}\<close> leaves them
  \<open>nil\<close> (\<open>None\<close> here), and Go panics on an assignment to an entry of a nil map.
\<close>

record MarathonData =
  MarathonData_Version :: string
  MarathonData_Resource :: "string gomap option"
  MarathonData_ID :: string
  MarathonData_Label :: "string gomap option"
  MarathonData_Image :: string

definition assign_entry :: "'v gomap option \<Rightarrow> string \<Rightarrow> 'v \<Rightarrow> panic + 'v gomap option" where
  "assign_entry m k v =
     (case m of None \<Rightarrow> Inl NilMapAssignment | Some al \<Rightarrow> Inr (Some (AList.update k v al)))"

definition marathon_data_step :: "MarathonData \<Rightarrow> string \<Rightarrow> panic + MarathonData" where
  "marathon_data_step m e =
     (if HasPrefix e ''MARATHON_APP_LABEL_'' then
        (let kv = Split (TrimPrefix e ''MARATHON_APP_LABEL_'') CHR ''=''
         in case index kv 0 of
              Inl p \<Rightarrow> Inl p
            | Inr k \<Rightarrow>
                (case index kv 1 of
                   Inl p \<Rightarrow> Inl p
                 | Inr v \<Rightarrow>
                     (case assign_entry (MarathonData_Label m) k v of
                        Inl p \<Rightarrow> Inl p
                      | Inr l \<Rightarrow> Inr (m\<lparr>MarathonData_Label := l\<rparr>))))
      else if HasPrefix e ''MARATHON_APP_RESOURCE_CPUS='' then
        (case assign_entry (MarathonData_Resource m) ''cpus''
                (TrimPrefix e ''MARATHON_APP_RESOURCE_CPUS='') of
           Inl p \<Rightarrow> Inl p
         | Inr r \<Rightarrow> Inr (m\<lparr>MarathonData_Resource := r\<rparr>))
      else if HasPrefix e ''MARATHON_APP_RESOURCE_MEM='' then
        (case assign_entry (MarathonData_Resource m) ''mem''
                (TrimPrefix e ''MARATHON_APP_RESOURCE_MEM='') of
           Inl p \<Rightarrow> Inl p
         | Inr r \<Rightarrow> Inr (m\<lparr>MarathonData_Resource := r\<rparr>))
      else if HasPrefix e ''MARATHON_APP_RESOURCE_DISK='' then
        (case assign_entry (MarathonData_Resource m) ''disk''
                (TrimPrefix e ''MARATHON_APP_RESOURCE_DISK='') of
           Inl p \<Rightarrow> Inl p
         | Inr r \<Rightarrow> Inr (m\<lparr>MarathonData_Resource := r\<rparr>))
      else if HasPrefix e ''MARATHON_APP_ID='' then
        Inr (m\<lparr>MarathonData_ID := TrimPrefix e ''MARATHON_APP_ID=''\<rparr>)
      else if HasPrefix e ''MARATHON_APP_VERSION='' then
        Inr (m\<lparr>MarathonData_Version := TrimPrefix e ''MARATHON_APP_VERSION=''\<rparr>)
      else if HasPrefix e ''MARATHON_APP_DOCKER_IMAGE='' then
        Inr (m\<lparr>MarathonData_Image := TrimPrefix e ''MARATHON_APP_DOCKER_IMAGE=''\<rparr>)
      else Inr m)"

fun marathon_data_loop :: "string list \<Rightarrow> MarathonData \<Rightarrow> panic + MarathonData" where
  "marathon_data_loop [] m = Inr m"
| "marathon_data_loop (e # es) m =
     (case marathon_data_step m e of
        Inl p \<Rightarrow> Inl p
      | Inr m' \<Rightarrow> marathon_data_loop es m')"

definition GetMarathonData :: "Container \<Rightarrow> 'c LogstashAdapter \<Rightarrow> panic + MarathonData" where
  "GetMarathonData c a =
     marathon_data_loop (Config_Env (Container_Config c))
       \<lparr>MarathonData_Version = [], MarathonData_Resource = None, MarathonData_ID = [],
        MarathonData_Label = None, MarathonData_Image = []\<rparr>"

section \<open>Outbound records\<close>

record DockerInfo =
  DockerInfo_Name :: string
  DockerInfo_ID :: string
  DockerInfo_Image :: string
  DockerInfo_Hostname :: string

text \<open>
  \<open>LogstashMessage\<close>. The field \<open>Marathon\<close> is declared as a pointer to a map, with the tag
  \<open>omitempty\<close>, and the struct literal in \<open>Stream\<close> puts the map \<open>marathonInfo\<close> itself
  there. The model keeps the declared type: \<open>None\<close> is the nil pointer, and \<open>Stream\<close>
  stores a pointer to \<open>marathonInfo\<close>, which is never nil.
\<close>

record LogstashMessage =
  LogstashMessage_Message :: string
  LogstashMessage_Stream :: string
  LogstashMessage_Docker :: DockerInfo
  LogstashMessage_Marathon :: "string gomap option"
  LogstashMessage_Tags :: "string slice"

text \<open>
  The values that \<open>Stream\<close> keeps under \<open>interface{}\<close> in the map \<open>data\<close>: what
  \<open>json.Unmarshal\<close> decodes (nil, bool, float64, string, \<open>[]interface{}\<close>,
  \<open>map[string]interface{}\<close>) and what \<open>Stream\<close> stores itself (\<open>[]string\<close>,
  \<open>map[string]string\<close>, \<open>DockerInfo\<close>). The type \<open>'n\<close> stands for the float64 values
  that \<open>json.Unmarshal\<close> produces.
\<close>

datatype 'n "value" =
    VNil
  | VBool bool
  | VFloat64 'n
  | VString string
  | VArray "'n value list"
  | VMap "(string \<times> 'n value) list"
  | VStrings "string slice"
  | VStringMap "string gomap"
  | VDockerInfo DockerInfo

text \<open>
  What \<open>json.Unmarshal(payload, &data)\<close> leaves behind for a fresh
  \<open>var data map[string]interface{}\<close>: an error (the payload is not JSON, or is JSON of
  another kind than an object), or no error and the map. The JSON value \<open>null\<close> is no
  error and leaves \<open>data\<close> nil (\<open>None\<close>).
\<close>

datatype 'n unmarshal_result = Unmarshal_error | Unmarshal_ok "'n value gomap option"

text \<open>The value handed to \<open>json.Marshal\<close>: the struct of the first branch, or the map \<open>data\<close>.\<close>

datatype 'n composed = Msg LogstashMessage | Data "'n value gomap"

text \<open>
  The two branches of \<open>Stream\<close> that build the record. Assigning to an entry of the nil map
  panics, at the first assignment.
\<close>

definition compose ::
  "'n unmarshal_result \<Rightarrow> string \<Rightarrow> string \<Rightarrow> DockerInfo \<Rightarrow> string slice \<Rightarrow> string gomap
     \<Rightarrow> panic + 'n composed" where
  "compose u m_Data m_Source dockerInfo tags marathonInfo =
     (case u of
        Unmarshal_error \<Rightarrow>
          Inr (Msg \<lparr>LogstashMessage_Message = m_Data,
                    LogstashMessage_Stream = m_Source,
                    LogstashMessage_Docker = dockerInfo,
                    LogstashMessage_Marathon = Some marathonInfo,
                    LogstashMessage_Tags = tags\<rparr>)
      | Unmarshal_ok None \<Rightarrow> Inl NilMapAssignment
      | Unmarshal_ok (Some data) \<Rightarrow>
          Inr (Data
            (AList.update ''marathon'' (VStringMap marathonInfo)
              (AList.update ''stream'' (VString m_Source)
                (AList.update ''tags'' (VStrings tags)
                  (AList.update ''docker'' (VDockerInfo dockerInfo) data))))))"

section \<open>The JSON encoder\<close>

text \<open>
  \<open>json.Marshal\<close> as package \<open>encoding/json\<close> documents it, in two stages: the JSON
  document of a Go value, and its compact text.
\<close>

datatype 'n json =
    JNull
  | JBool bool
  | JNumber 'n
  | JString string
  | JArray "'n json list"
  | JObject "(string \<times> 'n json) list"

text \<open>The entries of a map, each key once, sorted by key as the encoder sorts them.\<close>

definition map_entries :: "'v gomap \<Rightarrow> (string \<times> 'v) list" where
  "map_entries m = sort_key fst (AList.clearjunk m)"

fun to_json :: "'n value \<Rightarrow> 'n json" where
  "to_json VNil = JNull"
| "to_json (VBool b) = JBool b"
| "to_json (VFloat64 n) = JNumber n"
| "to_json (VString s) = JString s"
| "to_json (VArray xs) = JArray (map to_json xs)"
| "to_json (VMap m) = JObject (map_entries (map (\<lambda>(k, v). (k, to_json v)) m))"
| "to_json (VStrings NilSlice) = JNull"
| "to_json (VStrings (MkSlice xs)) = JArray (map JString xs)"
| "to_json (VStringMap m) = JObject (map_entries (map (\<lambda>(k, v). (k, JString v)) m))"
| "to_json (VDockerInfo d) =
     JObject [(''name'', JString (DockerInfo_Name d)), (''id'', JString (DockerInfo_ID d)),
              (''image'', JString (DockerInfo_Image d)),
              (''hostname'', JString (DockerInfo_Hostname d))]"

text \<open>
  The document of a composed record. The struct's fields come in their declared order,
  under the names of their tags; \<open>omitempty\<close> leaves a nil pointer out.
\<close>

fun record_json :: "'n composed \<Rightarrow> 'n json" where
  "record_json (Msg msg) =
     JObject
       ([(''message'', JString (LogstashMessage_Message msg)),
         (''stream'', JString (LogstashMessage_Stream msg)),
         (''docker'', to_json (VDockerInfo (LogstashMessage_Docker msg)))]
        @ (case LogstashMessage_Marathon msg of
             None \<Rightarrow> []
           | Some marathonInfo \<Rightarrow> [(''marathon'', to_json (VStringMap marathonInfo))])
        @ [(''tags'', to_json (VStrings (LogstashMessage_Tags msg)))])"
| "record_json (Data data) = to_json (VMap data)"

text \<open>
  String literals. A byte below \<open>0x80\<close> is copied when it is printable and none of
  \<open>"\<close>, \<open>\\<close>, \<open><\<close>, \<open>>\<close>, \<open>&\<close>; the others are written as escapes.
\<close>

definition hex_digit :: "nat \<Rightarrow> char" where
  "hex_digit n = ''0123456789abcdef'' ! n"

definition escape_ascii :: "char \<Rightarrow> string" where
  "escape_ascii b =
     (if 0x20 \<le> (of_char b :: nat) \<and> b \<notin> {CHR 0x22, CHR 0x5C, CHR ''<'', CHR ''>'', CHR ''&''}
      then [b]
      else if b = CHR 0x5C \<or> b = CHR 0x22 then [CHR 0x5C, b]
      else if b = CHR 0x0A then [CHR 0x5C, CHR ''n'']
      else if b = CHR 0x0D then [CHR 0x5C, CHR ''r'']
      else if b = CHR 0x09 then [CHR 0x5C, CHR ''t'']
      else CHR 0x5C # ''u00'' @ [hex_digit (of_char b div 16), hex_digit (of_char b mod 16)])"

text \<open>
  \<open>utf8.DecodeRuneInString\<close>, as far as the encoder needs it: the width of the UTF-8
  sequence at the head of the string, or \<open>None\<close> when the head is not a valid sequence.
\<close>

definition between :: "nat \<Rightarrow> nat \<Rightarrow> char \<Rightarrow> bool" where
  "between lo hi b \<longleftrightarrow> lo \<le> of_char b \<and> (of_char b :: nat) \<le> hi"

definition DecodeRune :: "string \<Rightarrow> nat option" where
  "DecodeRune s =
     (case s of
        [] \<Rightarrow> None
      | b0 # r \<Rightarrow>
          if between 0xC2 0xDF b0 then
            (case r of
               b1 # _ \<Rightarrow> if between 0x80 0xBF b1 then Some 2 else None
             | _ \<Rightarrow> None)
          else if between 0xE0 0xEF b0 then
            (case r of
               b1 # b2 # _ \<Rightarrow>
                 if between (if b0 = CHR 0xE0 then 0xA0 else 0x80)
                            (if b0 = CHR 0xED then 0x9F else 0xBF) b1
                    \<and> between 0x80 0xBF b2
                 then Some 3 else None
             | _ \<Rightarrow> None)
          else if between 0xF0 0xF4 b0 then
            (case r of
               b1 # b2 # b3 # _ \<Rightarrow>
                 if between (if b0 = CHR 0xF0 then 0x90 else 0x80)
                            (if b0 = CHR 0xF4 then 0x8F else 0xBF) b1
                    \<and> between 0x80 0xBF b2 \<and> between 0x80 0xBF b3
                 then Some 4 else None
             | _ \<Rightarrow> None)
          else None)"

text \<open>
  An invalid byte becomes the escape of U+FFFD; U+2028 and U+2029 are escaped; every
  other sequence is copied.
\<close>

function escape_string :: "string \<Rightarrow> string" where
  "escape_string [] = []"
| "escape_string (b # s) =
     (if (of_char b :: nat) < 0x80 then escape_ascii b @ escape_string s
      else
        (case DecodeRune (b # s) of
           None \<Rightarrow> CHR 0x5C # ''ufffd'' @ escape_string s
         | Some width \<Rightarrow>
             if take width (b # s) = [CHR 0xE2, CHR 0x80, CHR 0xA8] then
               CHR 0x5C # ''u2028'' @ escape_string (drop (width - 1) s)
             else if take width (b # s) = [CHR 0xE2, CHR 0x80, CHR 0xA9] then
               CHR 0x5C # ''u2029'' @ escape_string (drop (width - 1) s)
             else take width (b # s) @ escape_string (drop (width - 1) s)))"
  by pat_completeness auto
termination
  by (relation "measure length") auto

definition quote :: "string \<Rightarrow> string" where
  "quote s = CHR 0x22 # escape_string s @ [CHR 0x22]"

text \<open>
  The compact text of a document. \<open>FormatFloat\<close> is the text the encoder writes for a
  float64 (\<open>strconv.AppendFloat\<close> and the encoder's exponent clean-up).
\<close>

fun render :: "('n \<Rightarrow> string) \<Rightarrow> 'n json \<Rightarrow> string" where
  "render FormatFloat JNull = ''null''"
| "render FormatFloat (JBool b) = (if b then ''true'' else ''false'')"
| "render FormatFloat (JNumber n) = FormatFloat n"
| "render FormatFloat (JString s) = quote s"
| "render FormatFloat (JArray xs) = ''['' @ Join (map (render FormatFloat) xs) CHR '','' @ '']''"
| "render FormatFloat (JObject ms) =
     ''{'' @ Join (map (\<lambda>(k, v). quote k @ '':'' @ render FormatFloat v) ms) CHR '','' @ ''}''"

text \<open>
  \<open>json.Marshal\<close> on a composed record. None of the values \<open>Stream\<close> builds is of a kind
  the encoder refuses (the floats come from \<open>json.Unmarshal\<close>, so they are finite), so
  this encoder always returns a text.
\<close>

definition Marshal :: "('n \<Rightarrow> string) \<Rightarrow> 'n composed \<Rightarrow> string option" where
  "Marshal FormatFloat r = Some (render FormatFloat (record_json r))"

section \<open>The forwarding loop\<close>

text \<open>The fields of \<open>router.Message\<close> that \<open>Stream\<close> reads.\<close>

record Message =
  Message_Container :: Container
  Message_Source :: string
  Message_Data :: string

text \<open>
  The library functions \<open>Stream\<close> calls are parameters of the model: \<open>json.Unmarshal\<close>
  into a fresh map, \<open>json.Marshal\<close> (\<open>None\<close> is an error), and \<open>Write\<close> on the
  connection (\<open>None\<close> is an error, otherwise the connection afterwards).
\<close>

record ('n, 'c) library =
  json_Unmarshal :: "string \<Rightarrow> 'n unmarshal_result"
  json_Marshal :: "'n composed \<Rightarrow> string option"
  conn_Write :: "'c \<Rightarrow> string \<Rightarrow> 'c option"

text \<open>
  The process as \<open>Stream\<close> sees it: the adapter, the buffers handed to \<open>Write\<close> so far
  (oldest first) and the lines logged so far.
\<close>

datatype log_line = could_not_marshal | could_not_write

record 'c process =
  adapter :: "'c LogstashAdapter"
  written :: "string list"
  logged :: "log_line list"

text \<open>
  How an iteration, or the whole loop, ends: normally (the loop goes on, or the channel is
  closed and \<open>Stream\<close> returns), by \<open>log.Fatal\<close> (the process exits), or by a panic.
\<close>

datatype 'c outcome = Ok "'c process" | Fatal "'c process" | Panicked panic "'c process"

text \<open>The \<open>DockerInfo\<close> literal at the head of the loop body.\<close>

definition dockerInfo_of :: "Container \<Rightarrow> DockerInfo" where
  "dockerInfo_of c =
     \<lparr>DockerInfo_Name = Container_Name c,
      DockerInfo_ID = Container_ID c,
      DockerInfo_Image = Config_Image (Container_Config c),
      DockerInfo_Hostname = Config_Hostname (Container_Config c)\<rparr>"

definition Stream_body :: "('n, 'c) library \<Rightarrow> Message \<Rightarrow> 'c process \<Rightarrow> 'c outcome" where
  "Stream_body L m p =
     (let dockerInfo = dockerInfo_of (Message_Container m);
          (tags, a) = GetContainerTags (Message_Container m) (adapter p);
          p = p\<lparr>adapter := a\<rparr>
      in case GetMarathonInfo (Message_Container m) a of
           Inl pn \<Rightarrow> Panicked pn p
         | Inr marathonInfo \<Rightarrow>
             (case compose (json_Unmarshal L (Message_Data m)) (Message_Data m) (Message_Source m)
                     dockerInfo tags marathonInfo of
                Inl pn \<Rightarrow> Panicked pn p
              | Inr r \<Rightarrow>
                  (case json_Marshal L r of
                     None \<Rightarrow> Ok (p\<lparr>logged := logged p @ [could_not_marshal]\<rparr>)
                   | Some js \<Rightarrow>
                       (let js = js @ [newline];
                            p = p\<lparr>written := written p @ [js]\<rparr>
                        in case conn_Write L (conn a) js of
                             None \<Rightarrow> Fatal (p\<lparr>logged := logged p @ [could_not_write]\<rparr>)
                           | Some c \<Rightarrow> Ok (p\<lparr>adapter := a\<lparr>conn := c\<rparr>\<rparr>)))))"

text \<open>
  \<open>for m := range logstream\<close>: the messages received until the channel is closed, in
  order. A fatal write error or a panic ends the process, and the rest is never read.
\<close>

fun Stream :: "('n, 'c) library \<Rightarrow> Message list \<Rightarrow> 'c process \<Rightarrow> 'c outcome" where
  "Stream L [] p = Ok p"
| "Stream L (m # logstream) p =
     (case Stream_body L m p of
        Ok p' \<Rightarrow> Stream L logstream p'
      | Fatal p' \<Rightarrow> Fatal p'
      | Panicked pn p' \<Rightarrow> Panicked pn p')"

text \<open>The state of the process when the loop has ended.\<close>

fun process_of :: "'c outcome \<Rightarrow> 'c process" where
  "process_of (Ok p) = p"
| "process_of (Fatal p) = p"
| "process_of (Panicked pn p) = p"

section \<open>Sample inputs\<close>

text \<open>A container with a given environment, used to evaluate the functions on concrete inputs.\<close>

definition container_c1 :: "string list \<Rightarrow> Container" where
  "container_c1 env =
     \<lparr>Container_ID = ''c1'', Container_Name = ''/web'',
      Container_Config = \<lparr>Config_Image = ''nginx'', Config_Hostname = ''host1'', Config_Env = env\<rparr>\<rparr>"

text \<open>A connection that accepts a given number of writes and fails from then on.\<close>

definition example_Write :: "nat \<Rightarrow> string \<Rightarrow> nat option" where
  "example_Write c b = (if c = 0 then None else Some (c - 1))"

definition fresh_adapter :: "nat LogstashAdapter" where
  "fresh_adapter = NewLogstashAdapter 2"

text \<open>A message of the container above on \<open>stdout\<close>, and the process before the first message.\<close>

definition example_message :: "string list \<Rightarrow> string \<Rightarrow> Message" where
  "example_message env payload =
     \<lparr>Message_Container = container_c1 env, Message_Source = ''stdout'', Message_Data = payload\<rparr>"

definition fresh_process :: "nat \<Rightarrow> nat process" where
  "fresh_process c = \<lparr>adapter = NewLogstashAdapter c, written = [], logged = []\<rparr>"

text \<open>
  The library for the examples. Its floats are \<open>0\<close> and \<open>1\<close>. \<open>example_Unmarshal\<close> gives
  what \<open>json.Unmarshal\<close> returns on the payloads of the examples: \<open>null\<close> leaves the map
  nil, \<open>{}\<close> and \<open>{"a":1,"tags":"preexisting"}\<close> are objects, and the other payloads used
  (\<open>hello\<close>, \<open>not json\<close>) are not JSON.
\<close>

datatype example_float = Zero | One

fun example_FormatFloat :: "example_float \<Rightarrow> string" where
  "example_FormatFloat Zero = ''0''"
| "example_FormatFloat One = ''1''"

definition example_Unmarshal :: "string \<Rightarrow> example_float unmarshal_result" where
  "example_Unmarshal payload =
     (if payload = ''null'' then Unmarshal_ok None
      else if payload = ''{}'' then Unmarshal_ok (Some [])
      else if payload = [CHR ''{'', CHR 0x22, CHR ''a'', CHR 0x22, CHR '':'', CHR ''1'', CHR '','',
                         CHR 0x22] @ ''tags'' @ [CHR 0x22, CHR '':'', CHR 0x22] @ ''preexisting''
                        @ [CHR 0x22, CHR ''}'']
      then Unmarshal_ok (Some [(''a'', VFloat64 One), (''tags'', VString ''preexisting'')])
      else Unmarshal_error)"

definition example_library :: "(example_float, nat) library" where
  "example_library =
     \<lparr>json_Unmarshal = example_Unmarshal,
      json_Marshal = Marshal example_FormatFloat,
      conn_Write = example_Write\<rparr>"

section \<open>Facts about the library functions\<close>

lemma HasPrefix_append [simp]: "HasPrefix (p @ r) p"
  by (simp add: HasPrefix_def)

lemma TrimPrefix_append [simp]: "TrimPrefix (p @ r) p = r"
  by (simp add: TrimPrefix_def)

lemma Split_from_not_Nil [simp]: "Split_from cur s sep \<noteq> []"
  by (induction s arbitrary: cur) auto

lemma Join_Cons: "Join (x # xs) sep = (if xs = [] then x else x @ sep # Join xs sep)"
  by (cases xs) auto

lemma Join_Split_from: "Join (Split_from cur s sep) sep = cur @ s"
  by (induction s arbitrary: cur) (auto simp: Join_Cons)

lemma Join_Split: "Join (Split s sep) sep = s"
  by (simp add: Split_def Join_Split_from)

lemma sep_notin_Split_from:
  "sep \<notin> set cur \<Longrightarrow> sep \<notin> set (concat (Split_from cur s sep))"
proof (induction s arbitrary: cur)
  case Nil
  then show ?case by simp
next
  case (Cons c s)
  show ?case
  proof (cases "c = sep")
    case True
    have "sep \<notin> set (concat (Split_from [] s sep))"
      using Cons.IH [of "[]"] by simp
    with True Cons.prems show ?thesis by simp
  next
    case False
    have "sep \<notin> set (concat (Split_from (cur @ [c]) s sep))"
      using Cons.IH [of "cur @ [c]"] Cons.prems False by simp
    with False show ?thesis by simp
  qed
qed

lemma sep_notin_Split: "sep \<notin> set (concat (Split s sep))"
  using sep_notin_Split_from [of sep "[]" s] by (simp add: Split_def)

lemma length_Split_from: "length (Split_from cur s sep) = Suc (count_list s sep)"
  by (induction s arbitrary: cur) auto

lemma Replace_all: "n < 0 \<Longrightarrow> Replace s old new n = map (\<lambda>c. if c = old then new else c) s"
  by (induction s arbitrary: n) auto

lemma elems_append_slice [simp]: "elems (append_slice t xs) = elems t @ xs"
  by (cases t; cases xs) auto

lemma elems_tags_step: "elems (tags_step t e) = elems t @ elems (tags_step (MkSlice []) e)"
  by (simp add: tags_step_def)

lemma elems_foldl_tags_step:
  "elems (foldl tags_step t env) = elems t @ elems (foldl tags_step (MkSlice []) env)"
proof (induction env arbitrary: t)
  case Nil
  then show ?case by simp
next
  case (Cons e env)
  have "elems (foldl tags_step t (e # env)) = elems (tags_step t e) @ elems (foldl tags_step (MkSlice []) env)"
    using Cons.IH [of "tags_step t e"] by simp
  also have "\<dots> = elems t @ elems (tags_step (MkSlice []) e) @ elems (foldl tags_step (MkSlice []) env)"
    using elems_tags_step [of t e] by simp
  also have "\<dots> = elems t @ elems (foldl tags_step (MkSlice []) (e # env))"
    using Cons.IH [of "tags_step (MkSlice []) e"] by simp
  finally show ?case .
qed

lemma scan_tags_Nil [simp]: "scan_tags [] = MkSlice []"
  by (simp add: scan_tags_def)

lemma scan_tags_Cons: "elems (scan_tags (e # es)) = elems (tags_step (MkSlice []) e) @ elems (scan_tags es)"
  using elems_foldl_tags_step [of "tags_step (MkSlice []) e" es] by (simp add: scan_tags_def)

lemma scan_tags_append: "elems (scan_tags (xs @ ys)) = elems (scan_tags xs) @ elems (scan_tags ys)"
  using elems_foldl_tags_step [of "foldl tags_step (MkSlice []) xs" ys] by (simp add: scan_tags_def)

lemma tags_step_not_nil: "tags_step (MkSlice xs) e \<noteq> NilSlice"
  by (simp add: tags_step_def)

lemma foldl_tags_step_MkSlice: "\<exists>ys. foldl tags_step (MkSlice xs) env = MkSlice ys"
proof (induction env arbitrary: xs)
  case Nil
  then show ?case by simp
next
  case (Cons e env)
  obtain zs where "tags_step (MkSlice xs) e = MkSlice zs"
    using tags_step_not_nil [of xs e] by (cases "tags_step (MkSlice xs) e") auto
  then show ?case using Cons.IH [of zs] by simp
qed

lemma scan_tags_MkSlice: "scan_tags env = MkSlice (elems (scan_tags env))"
  using foldl_tags_step_MkSlice [of "[]" env] by (auto simp: scan_tags_def)

lemma tags_step_LOGSTASH_TAGS:
  "elems (tags_step (MkSlice []) (''LOGSTASH_TAGS='' @ r)) = Split r CHR '',''"
  using HasPrefix_append [of "''LOGSTASH_TAGS=''" r] TrimPrefix_append [of "''LOGSTASH_TAGS=''" r]
  by (simp add: tags_step_def del: HasPrefix_append TrimPrefix_append)

lemma not_LOGSTASH_TAGS: "\<not> HasPrefix (''MARATHON_APP_LABEL_'' @ r) ''LOGSTASH_TAGS=''"
  by (simp add: HasPrefix_def)

lemma tags_step_MARATHON_APP_LABEL:
  "elems (tags_step (MkSlice []) (''MARATHON_APP_LABEL_'' @ r)) = [Replace r CHR ''='' CHR ''_'' (- 1)]"
  using HasPrefix_append [of "''MARATHON_APP_LABEL_''" r] TrimPrefix_append [of "''MARATHON_APP_LABEL_''" r]
    not_LOGSTASH_TAGS [of r]
  by (simp add: tags_step_def del: HasPrefix_append TrimPrefix_append)

lemma tags_step_other:
  "\<not> HasPrefix e ''LOGSTASH_TAGS='' \<Longrightarrow> \<not> HasPrefix e ''MARATHON_APP_LABEL_'' \<Longrightarrow> tags_step t e = t"
  by (simp add: tags_step_def)


section \<open>Facts about maps and the composer\<close>

lemma HasPrefix_iff: "HasPrefix s p \<longleftrightarrow> (\<exists>r. s = p @ r)"
proof
  assume h: "HasPrefix s p"
  have "take (length p) s @ drop (length p) s = s"
    by (rule append_take_drop_id)
  with h have "s = p @ drop (length p) s"
    by (simp add: HasPrefix_def)
  then show "\<exists>r. s = p @ r" ..
next
  assume "\<exists>r. s = p @ r"
  then show "HasPrefix s p" by (auto simp: HasPrefix_def)
qed

lemma map_of_map_entries [simp]: "map_of (map_entries m) = map_of m"
proof -
  have d: "distinct (map fst (AList.clearjunk m))"
    by (rule distinct_clearjunk)
  then have "distinct (map fst (sort_key fst (AList.clearjunk m)))"
    by (simp add: distinct_map)
  moreover have "set (sort_key fst (AList.clearjunk m)) = set (AList.clearjunk m)"
    by simp
  ultimately have "map_of (sort_key fst (AList.clearjunk m)) = map_of (AList.clearjunk m)"
    using d map_of_inject_set by blast
  then show ?thesis
    by (simp add: map_entries_def map_of_clearjunk)
qed

lemma map_of_map_snd: "map_of (map (\<lambda>(k, v). (k, f v)) m) = map_option f \<circ> map_of m"
  by (induction m) (auto simp: fun_eq_iff)

lemma compose_error:
  "compose Unmarshal_error d src di tags info =
     Inr (Msg \<lparr>LogstashMessage_Message = d, LogstashMessage_Stream = src,
               LogstashMessage_Docker = di, LogstashMessage_Marathon = Some info,
               LogstashMessage_Tags = tags\<rparr>)"
  by (simp add: compose_def)

lemma compose_nil: "compose (Unmarshal_ok None) d src di tags info = Inl NilMapAssignment"
  by (simp add: compose_def)

lemma compose_map:
  "\<exists>merged. compose (Unmarshal_ok (Some data)) d src di tags info = Inr (Data merged)
     \<and> map_of merged = (map_of data)(''docker'' \<mapsto> VDockerInfo di, ''tags'' \<mapsto> VStrings tags,
          ''stream'' \<mapsto> VString src, ''marathon'' \<mapsto> VStringMap info)"
  by (simp add: compose_def update_conv')


text \<open>The definitions to unfold when a run is evaluated on a concrete input.\<close>

lemmas example_defs =
  example_library_def example_Unmarshal_def example_message_def example_Write_def
  fresh_process_def NewLogstashAdapter_def container_c1_def dockerInfo_of_def

lemmas run_defs =
  Stream_body_def GetContainerTags_def GetMarathonInfo_def scan_tags_def tags_step_def
  marathon_step_def HasPrefix_def TrimPrefix_def Split_def index_def compose_def Let_def

lemmas encode_defs =
  Marshal_def map_entries_def AList.delete_eq quote_def escape_ascii_def newline_def

section \<open>Facts about the encoder and the loop\<close>

lemma hex_digit_not_newline: "n < 16 \<Longrightarrow> hex_digit n \<noteq> newline"
proof -
  assume "n < 16"
  then have "''0123456789abcdef'' ! n \<in> set ''0123456789abcdef''"
    by (intro nth_mem) simp
  then show ?thesis
    by (auto simp: hex_digit_def newline_def)
qed

lemma of_char_div_16: "(of_char b :: nat) div 16 < 16"
proof -
  have "(of_char b :: nat) < 256" by (rule nat_of_char_less_256)
  then show ?thesis by arith
qed

lemma escape_ascii_no_newline: "newline \<notin> set (escape_ascii b)"
proof -
  have h1: "hex_digit (of_char b div 16) \<noteq> newline"
    by (rule hex_digit_not_newline) (rule of_char_div_16)
  have h2: "hex_digit (of_char b mod 16) \<noteq> newline"
    by (rule hex_digit_not_newline) simp
  have low: "(0x20::nat) \<le> of_char b \<Longrightarrow> b \<noteq> newline"
    by (auto simp: newline_def)
  show ?thesis
    using h1 h2 low by (auto simp: escape_ascii_def newline_def)
qed


lemma DecodeRune_high:
  "DecodeRune s = Some w \<Longrightarrow> c \<in> set (take w s) \<Longrightarrow> (0x80::nat) \<le> of_char c"
  by (auto simp: DecodeRune_def between_def split: list.splits if_splits)

lemma high_not_newline: "(0x80::nat) \<le> of_char c \<Longrightarrow> c \<noteq> newline"
  by (auto simp: newline_def)

lemma escape_string_no_newline: "newline \<notin> set (escape_string s)"
proof (induction s rule: escape_string.induct)
  case 1
  then show ?case by simp
next
  case (2 b s)
  show ?case
  proof (cases "(of_char b :: nat) < 0x80")
    case True
    then show ?thesis
      using 2(1) escape_ascii_no_newline [of b] by simp
  next
    case False
    show ?thesis
    proof (cases "DecodeRune (b # s)")
      case None
      then show ?thesis
        using False 2(2) by (simp add: newline_def)
    next
      case (Some width)
      have copy: "newline \<notin> set (take width (b # s))"
        using DecodeRune_high [OF Some] high_not_newline by blast
      have rest: "newline \<notin> set (escape_string (drop (width - 1) s))"
        using False Some 2(3) 2(4) 2(5)
        by (cases "take width (b # s) = [CHR 0xE2, CHR 0x80, CHR 0xA8]";
            cases "take width (b # s) = [CHR 0xE2, CHR 0x80, CHR 0xA9]") simp_all
      have esc: "newline \<notin> set (CHR 0x5C # ''u2028'')" "newline \<notin> set (CHR 0x5C # ''u2029'')"
        by (simp_all add: newline_def)
      show ?thesis
        using False Some copy rest esc by (simp del: set_simps list.set) (auto simp: newline_def)
    qed
  qed
qed


lemma quote_no_newline: "newline \<notin> set (quote s)"
  using escape_string_no_newline [of s] by (simp add: quote_def newline_def)

lemma Join_no_byte:
  "(\<And>x. x \<in> set xs \<Longrightarrow> c \<notin> set x) \<Longrightarrow> c \<noteq> sep \<Longrightarrow> c \<notin> set (Join xs sep)"
  by (induction xs sep rule: Join.induct) auto

lemma render_no_newline:
  assumes "\<And>n. newline \<notin> set (FormatFloat n)"
  shows "newline \<notin> set (render FormatFloat j)"
proof (induction j)
  case JNull
  show ?case by (simp add: newline_def)
next
  case (JBool b)
  show ?case by (simp add: newline_def)
next
  case (JNumber n)
  show ?case using assms by simp
next
  case (JString s)
  show ?case by (simp add: quote_no_newline)
next
  case (JArray xs)
  have "newline \<notin> set (Join (map (render FormatFloat) xs) CHR '','')"
    using JArray by (intro Join_no_byte) (auto simp: newline_def)
  then show ?case by (simp add: newline_def)
next
  case (JObject ms)
  have "newline \<notin> set (Join (map (\<lambda>(k, v). quote k @ '':'' @ render FormatFloat v) ms) CHR '','')"
  proof (intro Join_no_byte)
    fix x assume "x \<in> set (map (\<lambda>(k, v). quote k @ '':'' @ render FormatFloat v) ms)"
    then obtain k v where kv: "(k, v) \<in> set ms" and x: "x = quote k @ '':'' @ render FormatFloat v"
      by auto
    have "newline \<notin> set (render FormatFloat v)"
      using JObject [OF kv] by simp
    then show "newline \<notin> set x"
      using quote_no_newline [of k] by (simp add: x newline_def)
  next
    show "newline \<noteq> CHR '',''" by (simp add: newline_def)
  qed
  then show ?case by (simp add: newline_def)
qed

lemma Stream_body_written:
  assumes "b \<in> set (written (process_of (Stream_body L m p)))"
  shows "b \<in> set (written p)
         \<or> (\<exists>r tags marathonInfo js.
               compose (json_Unmarshal L (Message_Data m)) (Message_Data m) (Message_Source m)
                 (dockerInfo_of (Message_Container m)) tags marathonInfo = Inr r
               \<and> json_Marshal L r = Some js \<and> b = js @ [newline])"
  using assms
  by (auto simp: Stream_body_def Let_def split: prod.splits sum.splits option.splits)

lemma Stream_written:
  "b \<in> set (written (process_of (Stream L logstream p))) \<Longrightarrow>
   b \<in> set (written p)
   \<or> (\<exists>m r tags marathonInfo js. m \<in> set logstream
         \<and> compose (json_Unmarshal L (Message_Data m)) (Message_Data m) (Message_Source m)
              (dockerInfo_of (Message_Container m)) tags marathonInfo = Inr r
         \<and> json_Marshal L r = Some js \<and> b = js @ [newline])"
proof (induction logstream arbitrary: p)
  case Nil
  then show ?case by simp
next
  case (Cons m logstream)
  show ?case
  proof (cases "Stream_body L m p")
    case (Ok p')
    then have "b \<in> set (written (process_of (Stream L logstream p')))"
      using Cons.prems by simp
    then have "b \<in> set (written p')
        \<or> (\<exists>m r tags marathonInfo js. m \<in> set logstream
         \<and> compose (json_Unmarshal L (Message_Data m)) (Message_Data m) (Message_Source m)
              (dockerInfo_of (Message_Container m)) tags marathonInfo = Inr r
         \<and> json_Marshal L r = Some js \<and> b = js @ [newline])"
      by (rule Cons.IH)
    moreover have "b \<in> set (written p') \<Longrightarrow> ?thesis"
      using Stream_body_written [of b L m p] Ok by fastforce
    ultimately show ?thesis by fastforce
  next
    case (Fatal p')
    then have "b \<in> set (written (process_of (Stream_body L m p)))"
      using Cons.prems by simp
    then show ?thesis
      using Stream_body_written [of b L m p] by fastforce
  next
    case (Panicked pn p')
    then have "b \<in> set (written (process_of (Stream_body L m p)))"
      using Cons.prems by simp
    then show ?thesis
      using Stream_body_written [of b L m p] by fastforce
  qed
qed


lemma example_FormatFloat_no_newline: "newline \<notin> set (example_FormatFloat n)"
  by (cases n) (simp_all add: newline_def)

section \<open>Tag extraction and the tag cache\<close>

lemma GetContainerTags_miss:
  "containerTags a (Container_ID c) = None \<Longrightarrow>
   GetContainerTags c a =
     (scan_tags (Config_Env (Container_Config c)),
      a\<lparr>containerTags := (containerTags a)(Container_ID c \<mapsto> scan_tags (Config_Env (Container_Config c)))\<rparr>)"
  by (simp add: GetContainerTags_def Let_def)

lemma GetContainerTags_hit:
  "containerTags a (Container_ID c) = Some tags \<Longrightarrow> GetContainerTags c a = (tags, a)"
  by (simp add: GetContainerTags_def)

text \<open>
  Claim C2. On a cache miss, an entry \<open>LOGSTASH_TAGS=r\<close> at any place of the environment
  contributes exactly the segments of \<open>r\<close> split at the commas, between the tags of the
  entries before it and the tags of the entries after it: nothing before is overwritten and
  the scan does not stop. The segments are \<open>r\<close> byte for byte: joined with commas they
  give \<open>r\<close> back, and no segment holds a comma.
\<close>

theorem GetContainerTags_LOGSTASH_TAGS:
  assumes "containerTags a (Container_ID c) = None"
    and "Config_Env (Container_Config c) = before @ (''LOGSTASH_TAGS='' @ r) # after"
  shows "elems (fst (GetContainerTags c a)) =
           elems (scan_tags before) @ Split r CHR '','' @ elems (scan_tags after)
         \<and> Join (Split r CHR '','') CHR '','' = r
         \<and> CHR '','' \<notin> set (concat (Split r CHR '',''))"
proof -
  have "elems (fst (GetContainerTags c a)) = elems (scan_tags (before @ (''LOGSTASH_TAGS='' @ r) # after))"
    using assms by (simp add: GetContainerTags_miss)
  also have "\<dots> = elems (scan_tags before) @ elems (scan_tags ((''LOGSTASH_TAGS='' @ r) # after))"
    by (rule scan_tags_append)
  also have "\<dots> = elems (scan_tags before) @ Split r CHR '','' @ elems (scan_tags after)"
    using scan_tags_Cons [of "''LOGSTASH_TAGS='' @ r" after] tags_step_LOGSTASH_TAGS [of r] by simp
  finally show ?thesis
    using Join_Split [of r "CHR '',''"] sep_notin_Split [of "CHR '',''" r] by simp
qed

text \<open>Two \<open>LOGSTASH_TAGS=\<close> entries: a duplicate, a leading blank and an empty segment are all kept.\<close>

theorem GetContainerTags_LOGSTASH_TAGS_witness:
  "containerTags fresh_adapter ''c1'' = None
   \<and> elems (fst (GetContainerTags
        (container_c1 [''LOGSTASH_TAGS=a,b'', ''PATH=/bin'', ''LOGSTASH_TAGS=b, c,,a''])
        fresh_adapter)) = [''a'', ''b'', ''b'', '' c'', '''', ''a'']"
  using GetContainerTags_LOGSTASH_TAGS [of fresh_adapter
      "container_c1 [''LOGSTASH_TAGS=a,b'', ''PATH=/bin'', ''LOGSTASH_TAGS=b, c,,a'']"
      "[''LOGSTASH_TAGS=a,b'', ''PATH=/bin'']" "''b, c,,a''" "[]"]
  by (simp add: container_c1_def fresh_adapter_def NewLogstashAdapter_def scan_tags_def tags_step_def
      HasPrefix_def TrimPrefix_def Split_def)

text \<open>
  Claim C3 says that only the first \<open>=\<close> of a \<open>MARATHON_APP_LABEL_\<close> entry becomes
  \<open>_\<close>. The source calls \<open>strings.Replace\<close> with the count \<open>-1\<close>, which replaces every
  occurrence: the entry \<open>MARATHON_APP_LABEL_K=a=b\<close> gives the tag \<open>K_a_b\<close>, where
  replacing the first occurrence only would give \<open>K_a=b\<close>.
\<close>

theorem label_tag_first_equals_only_counterexample:
  "elems (fst (GetContainerTags (container_c1 [''MARATHON_APP_LABEL_K=a=b'']) fresh_adapter))
     = [''K_a_b'']
   \<and> Replace ''K=a=b'' CHR ''='' CHR ''_'' 1 = ''K_a=b''
   \<and> elems (fst (GetContainerTags (container_c1 [''MARATHON_APP_LABEL_K=a=b'']) fresh_adapter))
     \<noteq> [Replace ''K=a=b'' CHR ''='' CHR ''_'' 1]"
  by (simp add: GetContainerTags_def Let_def container_c1_def fresh_adapter_def NewLogstashAdapter_def scan_tags_def
      tags_step_def HasPrefix_def TrimPrefix_def)

text \<open>
  Claim C3, amended. On a cache miss, an entry \<open>MARATHON_APP_LABEL_r\<close> contributes one tag,
  in scan order: \<open>r\<close> with every \<open>=\<close> replaced by \<open>_\<close>.
\<close>

theorem GetContainerTags_MARATHON_APP_LABEL:
  assumes "containerTags a (Container_ID c) = None"
    and "Config_Env (Container_Config c) = before @ (''MARATHON_APP_LABEL_'' @ r) # after"
  shows "elems (fst (GetContainerTags c a)) =
           elems (scan_tags before)
           @ [map (\<lambda>b. if b = CHR ''='' then CHR ''_'' else b) r]
           @ elems (scan_tags after)"
proof -
  have "elems (fst (GetContainerTags c a)) = elems (scan_tags (before @ (''MARATHON_APP_LABEL_'' @ r) # after))"
    using assms by (simp add: GetContainerTags_miss)
  also have "\<dots> = elems (scan_tags before) @ elems (scan_tags ((''MARATHON_APP_LABEL_'' @ r) # after))"
    by (rule scan_tags_append)
  also have "\<dots> = elems (scan_tags before) @ [Replace r CHR ''='' CHR ''_'' (- 1)] @ elems (scan_tags after)"
    using scan_tags_Cons [of "''MARATHON_APP_LABEL_'' @ r" after] tags_step_MARATHON_APP_LABEL [of r] by simp
  finally show ?thesis
    using Replace_all [of "- 1" r "CHR ''=''" "CHR ''_''"] by simp
qed

text \<open>A label whose value holds a second \<open>=\<close>, between two other entries.\<close>

theorem GetContainerTags_MARATHON_APP_LABEL_witness:
  "containerTags fresh_adapter ''c1'' = None
   \<and> elems (fst (GetContainerTags
        (container_c1 [''LOGSTASH_TAGS=x'', ''MARATHON_APP_LABEL_K=a=b'', ''MARATHON_APP_LABEL_ENVIRONMENT=prod''])
        fresh_adapter)) = [''x'', ''K_a_b'', ''ENVIRONMENT_prod'']"
  using GetContainerTags_MARATHON_APP_LABEL [of fresh_adapter
      "container_c1 [''LOGSTASH_TAGS=x'', ''MARATHON_APP_LABEL_K=a=b'', ''MARATHON_APP_LABEL_ENVIRONMENT=prod'']"
      "[''LOGSTASH_TAGS=x'']" "''K=a=b''" "[''MARATHON_APP_LABEL_ENVIRONMENT=prod'']"]
  by (simp add: container_c1_def fresh_adapter_def NewLogstashAdapter_def scan_tags_def tags_step_def
      HasPrefix_def TrimPrefix_def Split_def)

text \<open>
  Claim C5 says that metadata extraction never faults. For the entry
  \<open>MARATHON_APP_LABEL_FOO\<close>, \<open>strings.Split\<close> returns the single segment \<open>FOO\<close> and
  \<open>kv[1]\<close> is out of range: \<open>GetMarathonInfo\<close> panics.
\<close>

theorem GetMarathonInfo_label_without_equals_panics:
  "GetMarathonInfo (container_c1 [''MARATHON_APP_LABEL_FOO'']) fresh_adapter
     = Inl (IndexOutOfRange 1 1)"
  by (simp add: GetMarathonInfo_def container_c1_def marathon_step_def HasPrefix_def
      TrimPrefix_def Split_def index_def)

text \<open>
  Claim C6. With an entry for the container's ID in the cache, \<open>GetContainerTags\<close> returns
  it and leaves the adapter as it is, whatever the environment holds. Without one it scans,
  stores the result under the ID and returns it. After any call, a second call for the
  same ID returns the same tags and the same adapter; since this holds for every
  environment of the second container, the second call does not read the environment.
\<close>

theorem GetContainerTags_cache:
  "(containerTags a (Container_ID c) = Some tags \<longrightarrow> GetContainerTags c a = (tags, a))
   \<and> (containerTags a (Container_ID c) = None \<longrightarrow>
        GetContainerTags c a =
          (scan_tags (Config_Env (Container_Config c)),
           a\<lparr>containerTags := (containerTags a)(Container_ID c \<mapsto> scan_tags (Config_Env (Container_Config c)))\<rparr>))
   \<and> (GetContainerTags c a = (tags', a') \<and> Container_ID c' = Container_ID c \<longrightarrow>
        GetContainerTags c' a' = (tags', a'))"
  by (auto simp: GetContainerTags_def Let_def split: option.splits)

text \<open>
  A first call on the fresh adapter, and a second call for the same ID whose environment
  has changed: the cached tags come back.
\<close>

theorem GetContainerTags_cache_witness:
  "containerTags fresh_adapter (Container_ID (container_c1 [''LOGSTASH_TAGS=prod,web''])) = None
   \<and> GetContainerTags (container_c1 [''LOGSTASH_TAGS=prod,web'']) fresh_adapter
       = (MkSlice [''prod'', ''web''], \<lparr>conn = 2::nat, containerTags = [''c1'' \<mapsto> MkSlice [''prod'', ''web'']]\<rparr>)
   \<and> containerTags \<lparr>conn = 2::nat, containerTags = [''c1'' \<mapsto> MkSlice [''prod'', ''web'']]\<rparr>
        (Container_ID (container_c1 [''LOGSTASH_TAGS=other''])) = Some (MkSlice [''prod'', ''web''])
   \<and> GetContainerTags (container_c1 [''LOGSTASH_TAGS=other''])
        \<lparr>conn = 2::nat, containerTags = [''c1'' \<mapsto> MkSlice [''prod'', ''web'']]\<rparr>
       = (MkSlice [''prod'', ''web''], \<lparr>conn = 2::nat, containerTags = [''c1'' \<mapsto> MkSlice [''prod'', ''web'']]\<rparr>)"
  using GetContainerTags_cache [of fresh_adapter "container_c1 [''LOGSTASH_TAGS=prod,web'']"
      "MkSlice [''prod'', ''web'']" "MkSlice [''prod'', ''web'']"
      "\<lparr>conn = 2::nat, containerTags = [''c1'' \<mapsto> MkSlice [''prod'', ''web'']]\<rparr>"
      "container_c1 [''LOGSTASH_TAGS=other'']"]
  by (simp add: container_c1_def fresh_adapter_def NewLogstashAdapter_def scan_tags_def tags_step_def
      HasPrefix_def TrimPrefix_def Split_def)

lemma foldl_tags_step_no_match:
  "(\<And>e. e \<in> set env \<Longrightarrow> \<not> HasPrefix e ''LOGSTASH_TAGS='' \<and> \<not> HasPrefix e ''MARATHON_APP_LABEL_'')
   \<Longrightarrow> foldl tags_step t env = t"
  by (induction env arbitrary: t) (simp_all add: tags_step_other)

text \<open>
  Claim C10. On a cache miss, an entry that is exactly \<open>LOGSTASH_TAGS=\<close> contributes the
  one tag \<open>""\<close>; and when no entry has either tag prefix, the result is the empty non-nil
  slice, and that slice is what the cache holds for the ID afterwards.
\<close>

theorem GetContainerTags_empty_cases:
  assumes "containerTags a (Container_ID c) = None"
  shows "(Config_Env (Container_Config c) = before @ ''LOGSTASH_TAGS='' # after \<longrightarrow>
            elems (fst (GetContainerTags c a)) = elems (scan_tags before) @ [''''] @ elems (scan_tags after))
         \<and> ((\<forall>e \<in> set (Config_Env (Container_Config c)).
               \<not> HasPrefix e ''LOGSTASH_TAGS='' \<and> \<not> HasPrefix e ''MARATHON_APP_LABEL_'') \<longrightarrow>
            GetContainerTags c a =
              (MkSlice [], a\<lparr>containerTags := (containerTags a)(Container_ID c \<mapsto> MkSlice [])\<rparr>))"
proof (intro conjI impI)
  assume env: "Config_Env (Container_Config c) = before @ ''LOGSTASH_TAGS='' # after"
  have "elems (fst (GetContainerTags c a)) = elems (scan_tags (before @ ''LOGSTASH_TAGS='' # after))"
    using assms env by (simp add: GetContainerTags_miss)
  also have "\<dots> = elems (scan_tags before) @ elems (scan_tags (''LOGSTASH_TAGS='' # after))"
    by (rule scan_tags_append)
  also have "\<dots> = elems (scan_tags before) @ Split [] CHR '','' @ elems (scan_tags after)"
    using scan_tags_Cons [of "''LOGSTASH_TAGS=''" after] tags_step_LOGSTASH_TAGS [of "[]"] by simp
  finally show "elems (fst (GetContainerTags c a)) = elems (scan_tags before) @ [''''] @ elems (scan_tags after)"
    by (simp add: Split_def)
next
  assume "\<forall>e \<in> set (Config_Env (Container_Config c)).
            \<not> HasPrefix e ''LOGSTASH_TAGS='' \<and> \<not> HasPrefix e ''MARATHON_APP_LABEL_''"
  then have "scan_tags (Config_Env (Container_Config c)) = MkSlice []"
    unfolding scan_tags_def by (intro foldl_tags_step_no_match) blast
  then show "GetContainerTags c a =
      (MkSlice [], a\<lparr>containerTags := (containerTags a)(Container_ID c \<mapsto> MkSlice [])\<rparr>)"
    using assms by (simp add: GetContainerTags_miss)
qed

text \<open>An environment with an empty \<open>LOGSTASH_TAGS=\<close>, and one with no tag entry at all.\<close>

theorem GetContainerTags_empty_cases_witness:
  "containerTags fresh_adapter ''c1'' = None
   \<and> elems (fst (GetContainerTags (container_c1 [''A=1'', ''LOGSTASH_TAGS='', ''LOGSTASH_TAGS=x''])
        fresh_adapter)) = ['''', ''x'']
   \<and> GetContainerTags (container_c1 [''A=1'', ''PATH=/bin'']) fresh_adapter
       = (MkSlice [], \<lparr>conn = 2::nat, containerTags = [''c1'' \<mapsto> MkSlice []]\<rparr>)"
  using GetContainerTags_empty_cases [of fresh_adapter
      "container_c1 [''A=1'', ''LOGSTASH_TAGS='', ''LOGSTASH_TAGS=x'']" "[''A=1'']" "[''LOGSTASH_TAGS=x'']"]
    GetContainerTags_empty_cases [of fresh_adapter "container_c1 [''A=1'', ''PATH=/bin'']" "[]" "[]"]
  by (simp add: container_c1_def fresh_adapter_def NewLogstashAdapter_def scan_tags_def tags_step_def
      HasPrefix_def TrimPrefix_def Split_def)

section \<open>The composer and the forwarding loop\<close>

text \<open>
  Claim C1 says that every inbound message gives exactly one outbound record. A message
  whose payload is the JSON value \<open>null\<close> gives none: \<open>json.Unmarshal\<close> reports no error
  and leaves \<open>data\<close> nil, so \<open>Stream\<close> takes the branch for JSON payloads, and the
  assignment \<open>data["docker"] = dockerInfo\<close> panics. Nothing is written, and the message
  after it is never read.
\<close>

theorem Stream_null_payload_panics:
  "Stream example_library [example_message [] ''null'', example_message [] ''hello'']
     (fresh_process 2)
   = Panicked NilMapAssignment
       \<lparr>adapter = \<lparr>conn = 2, containerTags = [''c1'' \<mapsto> MkSlice []]\<rparr>,
        written = [], logged = []\<rparr>"
  by (simp add: example_defs run_defs)

text \<open>
  Claim C9 says that the key \<open>marathon\<close> is left out of the wire record when the scheduler
  metadata is empty, in both shapes. For the payload \<open>{}\<close> of a container without any
  label, the buffer written is the text of a document that has the member \<open>marathon\<close>,
  with the empty object as its value.
\<close>

theorem merged_record_marathon_counterexample:
  "Stream example_library [example_message [] ''{}''] (fresh_process 2)
   = Ok \<lparr>adapter = \<lparr>conn = 1, containerTags = [''c1'' \<mapsto> MkSlice []]\<rparr>,
         written =
           [render example_FormatFloat
              (JObject
                [(''docker'', JObject [(''name'', JString ''/web''), (''id'', JString ''c1''),
                                       (''image'', JString ''nginx''),
                                       (''hostname'', JString ''host1'')]),
                 (''marathon'', JObject []),
                 (''stream'', JString ''stdout''),
                 (''tags'', JArray [])])
            @ [newline]],
         logged = []\<rparr>"
  by (simp add: example_defs run_defs encode_defs)

text \<open>
  Claim C9, amended. In the merged shape the document of the record always has the member
  \<open>marathon\<close>, whatever the payload held under that key and also when the label map is
  empty; its value is an object whose members are the entries of the label map.
\<close>

theorem merged_record_has_marathon:
  "\<exists>merged ms.
     compose (Unmarshal_ok (Some data)) d src di tags info = Inr (Data merged)
     \<and> record_json (Data merged) = JObject ms
     \<and> map_of ms ''marathon'' = Some (JObject (map_entries (map (\<lambda>(k, v). (k, JString v)) info)))
     \<and> map_of (map_entries (map (\<lambda>(k, v). (k, JString v)) info)) = map_option JString \<circ> map_of info"
proof -
  obtain merged where c: "compose (Unmarshal_ok (Some data)) d src di tags info = Inr (Data merged)"
    and m: "map_of merged = (map_of data)(''docker'' \<mapsto> VDockerInfo di, ''tags'' \<mapsto> VStrings tags,
          ''stream'' \<mapsto> VString src, ''marathon'' \<mapsto> VStringMap info)"
    using compose_map by blast
  let ?ms = "map_entries (map (\<lambda>(k, v). (k, to_json v)) merged)"
  have "record_json (Data merged) = JObject ?ms" by simp
  moreover have "map_of ?ms ''marathon'' = Some (to_json (VStringMap info))"
    using m by (simp add: map_of_map_snd)
  moreover have "map_of (map_entries (map (\<lambda>(k, v). (k, JString v)) info)) = map_option JString \<circ> map_of info"
    by (simp add: map_of_map_snd)
  ultimately show ?thesis using c by auto
qed

text \<open>
  Claim C8. Take a message for which the metadata is extracted and the record is composed.
  If \<open>json.Marshal\<close> fails, the failure is logged, nothing is written, and the loop goes
  on with the next message. If \<open>Write\<close> fails, the failure is logged and the process
  exits: the result is the same whatever messages follow, so none of them is read, and
  the buffer was handed to \<open>Write\<close> once.
\<close>

theorem Stream_error_handling:
  assumes "GetContainerTags (Message_Container m) (adapter p) = (tags, a)"
    and "GetMarathonInfo (Message_Container m) a = Inr marathonInfo"
    and "compose (json_Unmarshal L (Message_Data m)) (Message_Data m) (Message_Source m)
           (dockerInfo_of (Message_Container m)) tags marathonInfo = Inr r"
  shows "(json_Marshal L r = None \<longrightarrow>
            Stream L (m # logstream) p =
              Stream L logstream (p\<lparr>adapter := a, logged := logged p @ [could_not_marshal]\<rparr>))
         \<and> (json_Marshal L r = Some js \<and> conn_Write L (conn a) (js @ [newline]) = None \<longrightarrow>
            Stream L (m # logstream) p =
              Fatal (p\<lparr>adapter := a, written := written p @ [js @ [newline]],
                       logged := logged p @ [could_not_write]\<rparr>))"
  using assms by (simp add: Stream_body_def Let_def)

text \<open>
  Two messages with an encoder that always fails, and the same two messages on a
  connection that refuses the first write.
\<close>

theorem Stream_error_handling_witness:
  "Stream (example_library\<lparr>json_Marshal := \<lambda>r. None\<rparr>)
      [example_message [] ''hello'', example_message [] ''{}''] (fresh_process 2)
    = Ok \<lparr>adapter = \<lparr>conn = 2, containerTags = [''c1'' \<mapsto> MkSlice []]\<rparr>,
          written = [], logged = [could_not_marshal, could_not_marshal]\<rparr>
   \<and> Stream example_library
      [example_message [] ''hello'', example_message [] ''{}''] (fresh_process 0)
    = Fatal \<lparr>adapter = \<lparr>conn = 0, containerTags = [''c1'' \<mapsto> MkSlice []]\<rparr>,
             written = [render example_FormatFloat
                 (record_json
                   (Msg \<lparr>LogstashMessage_Message = ''hello'', LogstashMessage_Stream = ''stdout'',
                         LogstashMessage_Docker = dockerInfo_of (container_c1 []),
                         LogstashMessage_Marathon = Some [], LogstashMessage_Tags = MkSlice []\<rparr>))
                 @ [newline]],
             logged = [could_not_write]\<rparr>"
  using Stream_error_handling [where m = "example_message [] ''hello''" and p = "fresh_process 2"
      and tags = "MkSlice []"
      and a = "\<lparr>conn = 2, containerTags = [''c1'' \<mapsto> MkSlice []]\<rparr>"
      and marathonInfo = "[]"
      and L = "example_library\<lparr>json_Marshal := \<lambda>r. None\<rparr>"
      and r = "Msg \<lparr>LogstashMessage_Message = ''hello'', LogstashMessage_Stream = ''stdout'',
            LogstashMessage_Docker = dockerInfo_of (container_c1 []),
            LogstashMessage_Marathon = Some [], LogstashMessage_Tags = MkSlice []\<rparr>"
      and js = "[]" and logstream = "[example_message [] ''{}'']"]
    Stream_error_handling [where m = "example_message [] ''hello''" and p = "fresh_process 0"
      and tags = "MkSlice []"
      and a = "\<lparr>conn = 0, containerTags = [''c1'' \<mapsto> MkSlice []]\<rparr>"
      and marathonInfo = "[]"
      and L = "example_library"
      and r = "Msg \<lparr>LogstashMessage_Message = ''hello'', LogstashMessage_Stream = ''stdout'',
            LogstashMessage_Docker = dockerInfo_of (container_c1 []),
            LogstashMessage_Marathon = Some [], LogstashMessage_Tags = MkSlice []\<rparr>"
      and js = "render example_FormatFloat
                 (record_json
                   (Msg \<lparr>LogstashMessage_Message = ''hello'', LogstashMessage_Stream = ''stdout'',
                         LogstashMessage_Docker = dockerInfo_of (container_c1 []),
                         LogstashMessage_Marathon = Some [], LogstashMessage_Tags = MkSlice []\<rparr>))"
      and logstream = "[example_message [] ''{}'']"]
  by (simp add: example_defs run_defs Marshal_def)

text \<open>
  Claim C7. Let the encoder be the one of package \<open>encoding/json\<close>, and let the text it
  writes for a float hold no newline. Then every buffer handed to \<open>Write\<close> during a run
  that starts with nothing written is the JSON text of the record composed for one of the
  messages, followed by one newline byte; and the JSON text holds no newline byte, so the
  buffer has exactly one, at its end.
\<close>

theorem Stream_framing:
  assumes "\<And>n. newline \<notin> set (FormatFloat n)"
    and "json_Marshal L = Marshal FormatFloat"
    and "written p = []"
    and "b \<in> set (written (process_of (Stream L logstream p)))"
  shows "\<exists>m r tags marathonInfo. m \<in> set logstream
           \<and> compose (json_Unmarshal L (Message_Data m)) (Message_Data m) (Message_Source m)
                (dockerInfo_of (Message_Container m)) tags marathonInfo = Inr r
           \<and> b = render FormatFloat (record_json r) @ [newline]
           \<and> newline \<notin> set (render FormatFloat (record_json r))"
proof -
  obtain m r tags marathonInfo js where m: "m \<in> set logstream"
    and c: "compose (json_Unmarshal L (Message_Data m)) (Message_Data m) (Message_Source m)
              (dockerInfo_of (Message_Container m)) tags marathonInfo = Inr r"
    and js: "json_Marshal L r = Some js" and b: "b = js @ [newline]"
    using Stream_written [OF assms(4)] assms(3) by auto
  have "js = render FormatFloat (record_json r)"
    using js assms(2) by (simp add: Marshal_def)
  moreover have "newline \<notin> set (render FormatFloat (record_json r))"
    using assms(1) by (rule render_no_newline)
  ultimately show ?thesis using m c b by blast
qed

text \<open>
  The end-to-end scenario of the specification: the payload \<open>hello\<close> of a container with
  \<open>LOGSTASH_TAGS=prod,web\<close> and \<open>MARATHON_APP_ID=/svc\<close>.
\<close>

theorem Stream_framing_witness:
  "(\<forall>n. newline \<notin> set (example_FormatFloat n))
   \<and> json_Marshal example_library = Marshal example_FormatFloat
   \<and> written (fresh_process 2) = []
   \<and> written (process_of (Stream example_library
         [example_message [''LOGSTASH_TAGS=prod,web'', ''MARATHON_APP_ID=/svc''] ''hello'']
         (fresh_process 2)))
      = [render example_FormatFloat
           (JObject
             [(''message'', JString ''hello''), (''stream'', JString ''stdout''),
              (''docker'', JObject [(''name'', JString ''/web''), (''id'', JString ''c1''),
                                    (''image'', JString ''nginx''),
                                    (''hostname'', JString ''host1'')]),
              (''marathon'', JObject []),
              (''tags'', JArray [JString ''prod'', JString ''web''])])
         @ [newline]]
   \<and> newline \<notin> set (render example_FormatFloat
           (JObject
             [(''message'', JString ''hello''), (''stream'', JString ''stdout''),
              (''docker'', JObject [(''name'', JString ''/web''), (''id'', JString ''c1''),
                                    (''image'', JString ''nginx''),
                                    (''hostname'', JString ''host1'')]),
              (''marathon'', JObject []),
              (''tags'', JArray [JString ''prod'', JString ''web''])]))"
proof -
  let ?ms = "[example_message [''LOGSTASH_TAGS=prod,web'', ''MARATHON_APP_ID=/svc''] ''hello'']"
  let ?j = "JObject
             [(''message'', JString ''hello''), (''stream'', JString ''stdout''),
              (''docker'', JObject [(''name'', JString ''/web''), (''id'', JString ''c1''),
                                    (''image'', JString ''nginx''),
                                    (''hostname'', JString ''host1'')]),
              (''marathon'', JObject []),
              (''tags'', JArray [JString ''prod'', JString ''web''])] :: example_float json"
  let ?b = "render example_FormatFloat ?j @ [newline]"
  have h1: "\<And>n. newline \<notin> set (example_FormatFloat n)"
    by (rule example_FormatFloat_no_newline)
  have h2: "json_Marshal example_library = Marshal example_FormatFloat"
    by (simp add: example_library_def)
  have h3: "written (fresh_process 2) = []"
    by (simp add: fresh_process_def)
  have w: "written (process_of (Stream example_library ?ms (fresh_process 2))) = [?b]"
    by (simp add: example_defs run_defs encode_defs)
  then have h4: "?b \<in> set (written (process_of (Stream example_library ?ms (fresh_process 2))))"
    by simp
  obtain m r tags marathonInfo where
    "?b = render example_FormatFloat (record_json r) @ [newline]"
    "newline \<notin> set (render example_FormatFloat (record_json (r :: example_float composed)))"
    using Stream_framing [OF h1 h2 h3 h4] by blast
  then have "newline \<notin> set (render example_FormatFloat ?j)"
    by simp
  then show ?thesis
    using h1 h2 h3 w by blast
qed

section \<open>Scheduler metadata\<close>

text \<open>
  Claim C4 says that extraction fills version, identity, resource map and label map
  according to the prefix table. \<open>GetMarathonData\<close> has the whole table, but it writes
  \<open>m.Resource[...]\<close> and \<open>m.Label[...]\<close> after \<open>m := MarathonData{}\<close>, which leaves both maps
  nil: a resource entry and a label entry each make it panic, and so does an environment
  with all four kinds of entry. \<open>GetMarathonInfo\<close>, on that environment, returns the label
  map and nothing of the version, the identity or the resources.
\<close>

theorem GetMarathonData_nil_map_panics:
  "GetMarathonData (container_c1 [''MARATHON_APP_RESOURCE_CPUS=0.01'']) fresh_adapter
     = Inl NilMapAssignment
   \<and> GetMarathonData (container_c1 [''MARATHON_APP_LABEL_ENVIRONMENT=prod'']) fresh_adapter
     = Inl NilMapAssignment
   \<and> GetMarathonData
     (container_c1 [''MARATHON_APP_VERSION=2016-10-20T13:25:13.627Z'',
                    ''MARATHON_APP_LABEL_ENVIRONMENT=prod'',
                    ''MARATHON_APP_RESOURCE_CPUS=0.01'',
                    ''MARATHON_APP_ID=/flapjack-notifier'']) fresh_adapter
     = Inl NilMapAssignment
   \<and> GetMarathonInfo
     (container_c1 [''MARATHON_APP_VERSION=2016-10-20T13:25:13.627Z'',
                    ''MARATHON_APP_LABEL_ENVIRONMENT=prod'',
                    ''MARATHON_APP_RESOURCE_CPUS=0.01'',
                    ''MARATHON_APP_ID=/flapjack-notifier'']) fresh_adapter
     = Inr [(''ENVIRONMENT'', ''prod'')]"
  by (simp add: GetMarathonInfo_def GetMarathonData_def container_c1_def marathon_step_def
      marathon_data_step_def assign_entry_def HasPrefix_def TrimPrefix_def Split_def index_def)

end
